theory Spec2Isabelle
  imports Main "HOL-Library.Sublist"
begin

section \<open>Values, records and the loaded data\<close>

text \<open>
  The program \<^verbatim>\<open>Sample_Accident_Program.py\<close> works on what \<^verbatim>\<open>json.load\<close> hands it.
  A field of a record holds an integer, a text or the absent value \<^verbatim>\<open>None\<close> (JSON
  \<^verbatim>\<open>null\<close>), as in the data model of the specification; floating point numbers,
  booleans and nested containers as field values are not part of this model.
  A \<^typ>\<open>char\<close> stands for one code point below 256.
\<close>

datatype pyval = PyNone | PyInt int | PyStr string

text \<open>
  A record is a Python \<^verbatim>\<open>dict\<close> with text keys, kept as an association list in
  insertion order; \<^verbatim>\<open>key in record\<close> and \<^verbatim>\<open>record.get(key)\<close> read it through
  \<^const>\<open>map_of\<close>.
\<close>

type_synonym dict = "(string \<times> pyval) list"

text \<open>
  An element of the loaded list is a record or, when the file holds something else, a
  scalar. The loaded value itself is a list, or a single object or scalar.
\<close>

datatype item = Rec dict | Atom pyval

datatype loaded = LoadedList "item list" | LoadedItem item

text \<open>The exceptions that the program can meet.\<close>

datatype exn =
    TypeError
  | AttributeError
  | KeyError string
  | FileNotFoundError
  | JSONDecodeError
  | OSError
  | OtherError

text \<open>One constructor for each \<^verbatim>\<open>print\<close> statement of the program.\<close>

datatype event =
    CreatedFile string
  | CreateError
  | ReadingFrom string
  | FileNotFoundAt string
  | NotAList
  | TotalLoaded nat
  | Separator
  | SearchKeyNotFound string
  | Analysis1 string nat
  | ResultLine pyval pyval pyval
  | Analysis2
  | CityLine pyval nat
  | Analysis3
  | CarLine pyval nat
  | FileWasNotFound string
  | NotValidJSON string
  | UnexpectedError exn
  | CleanedUp string

section \<open>Python's string operations\<close>

text \<open>\<^verbatim>\<open>str(n)\<close> for a natural number: its decimal digits.\<close>

function str_nat :: "nat \<Rightarrow> string" where
  "str_nat n =
     (if n < 10 then [''0123456789'' ! n]
      else str_nat (n div 10) @ [''0123456789'' ! (n mod 10)])"
  by pat_completeness auto
termination
  by (relation "measure id") auto

declare str_nat.simps [simp del]

text \<open>\<^verbatim>\<open>str(v)\<close> on the values of the model.\<close>

fun py_str :: "pyval \<Rightarrow> string" where
  "py_str PyNone = ''None''"
| "py_str (PyInt i) = (if i < 0 then CHR ''-'' # str_nat (nat (- i)) else str_nat (nat i))"
| "py_str (PyStr s) = s"

text \<open>
  \<^verbatim>\<open>str.lower()\<close>: among the code points below 256 the upper-case letters are
  \<^verbatim>\<open>A\<close> to \<^verbatim>\<open>Z\<close> and \<^verbatim>\<open>U+00C0\<close> to \<^verbatim>\<open>U+00DE\<close> without the
  multiplication sign \<^verbatim>\<open>U+00D7\<close>; each has its lower-case form 32 places further on.
\<close>

definition lower_char :: "char \<Rightarrow> char" where
  "lower_char c =
     (let n = (of_char c :: nat)
      in if (65 \<le> n \<and> n \<le> 90) \<or> (192 \<le> n \<and> n \<le> 222 \<and> n \<noteq> 215)
         then char_of (n + 32) else c)"

definition lower :: "string \<Rightarrow> string" where
  "lower s = map lower_char s"

text \<open>
  \<^verbatim>\<open>a in b\<close> on two strings holds when \<open>a\<close> is a contiguous part of \<open>b\<close>, which is
  \<^term>\<open>sublist a b\<close>.
\<close>

section \<open>The search\<close>

text \<open>\<^verbatim>\<open>record.get(key, default)\<close>.\<close>

definition dict_get :: "dict \<Rightarrow> string \<Rightarrow> pyval \<Rightarrow> pyval" where
  "dict_get r key dflt = (case map_of r key of None \<Rightarrow> dflt | Some v \<Rightarrow> v)"

text \<open>
  \<^verbatim>\<open>search_key in data_list[0]\<close>: membership among the keys of a record, a substring
  test on a text, and a \<^verbatim>\<open>TypeError\<close> on an integer or \<^verbatim>\<open>None\<close>.
\<close>

fun py_contains :: "item \<Rightarrow> string \<Rightarrow> exn + bool" where
  "py_contains (Rec r) key = Inr (map_of r key \<noteq> None)"
| "py_contains (Atom (PyStr s)) key = Inr (sublist key s)"
| "py_contains (Atom PyNone) key = Inl TypeError"
| "py_contains (Atom (PyInt i)) key = Inl TypeError"

text \<open>
  The loop of \<^verbatim>\<open>search_accidents\<close> (lines 51 to 58), with \<open>results\<close> as the accumulator.
  \<^verbatim>\<open>record.get\<close> on an element that is no record raises \<^verbatim>\<open>AttributeError\<close>.
\<close>

fun search_loop :: "string \<Rightarrow> string \<Rightarrow> item list \<Rightarrow> item list \<Rightarrow> exn + item list" where
  "search_loop search_key search_term [] results = Inr results"
| "search_loop search_key search_term (Atom a # rest) results = Inl AttributeError"
| "search_loop search_key search_term (Rec rcd # rest) results =
     (let record_value = lower (py_str (dict_get rcd search_key (PyStr '''')))
      in search_loop search_key search_term rest
           (if sublist search_term record_value then results @ [Rec rcd] else results))"

text \<open>
  \<^verbatim>\<open>search_accidents\<close> (lines 32 to 60): what it prints, and the list it returns or the
  exception it raises.
\<close>

definition search_accidents ::
    "item list \<Rightarrow> string \<Rightarrow> pyval \<Rightarrow> event list \<times> (exn + item list)" where
  "search_accidents data_list search_key search_value =
     (case data_list of
        [] \<Rightarrow> ([SearchKeyNotFound search_key], Inr [])
      | first # _ \<Rightarrow>
          (case py_contains first search_key of
             Inl e \<Rightarrow> ([], Inl e)
           | Inr False \<Rightarrow> ([SearchKeyNotFound search_key], Inr [])
           | Inr True \<Rightarrow>
               ([], search_loop search_key (lower (py_str search_value)) data_list [])))"

section \<open>The most frequent value\<close>

text \<open>
  The list comprehension of line 75, with the list built so far as the accumulator:
  \<^verbatim>\<open>record.get(key)\<close> is \<^verbatim>\<open>None\<close> for a missing key, and the values that are
  \<^verbatim>\<open>None\<close> are left out. An element that is no record raises \<^verbatim>\<open>AttributeError\<close>.
\<close>

fun items_of :: "string \<Rightarrow> item list \<Rightarrow> pyval list \<Rightarrow> exn + pyval list" where
  "items_of key [] items = Inr items"
| "items_of key (Atom a # rest) items = Inl AttributeError"
| "items_of key (Rec rcd # rest) items =
     items_of key rest
       (if dict_get rcd key PyNone \<noteq> PyNone then items @ [dict_get rcd key PyNone] else items)"

text \<open>
  \<^verbatim>\<open>collections.Counter\<close>: a dict from elements to counts, in the order in which the
  elements were first met. Counting one more element is
  \<^verbatim>\<open>mapping[elem] = mapping.get(elem, 0) + 1\<close>.
\<close>

definition count_elem :: "('a \<times> nat) list \<Rightarrow> 'a \<Rightarrow> ('a \<times> nat) list" where
  "count_elem counts x =
     (case map_of counts x of
        None \<Rightarrow> counts @ [(x, 1)]
      | Some n \<Rightarrow> map (\<lambda>(k, c). if k = x then (k, c + 1) else (k, c)) counts)"

definition Counter :: "'a list \<Rightarrow> ('a \<times> nat) list" where
  "Counter xs = foldl count_elem [] xs"

text \<open>
  \<^verbatim>\<open>most_common(1)\<close> is \<^verbatim>\<open>heapq.nlargest(1, self.items(), key=itemgetter(1))\<close>, which for
  \<^verbatim>\<open>n == 1\<close> is Python's \<^verbatim>\<open>max\<close> over the entries by count: the running maximum is
  replaced only by an entry with a strictly greater count.
\<close>

fun py_max_by_count :: "('a \<times> nat) \<Rightarrow> ('a \<times> nat) list \<Rightarrow> ('a \<times> nat)" where
  "py_max_by_count best [] = best"
| "py_max_by_count best (p # ps) = py_max_by_count (if snd best < snd p then p else best) ps"

definition most_common1 :: "('a \<times> nat) list \<Rightarrow> ('a \<times> nat) list" where
  "most_common1 counts = (case counts of [] \<Rightarrow> [] | p # ps \<Rightarrow> [py_max_by_count p ps])"

text \<open>
  \<^verbatim>\<open>find_most_frequent_by_key\<close> (lines 62 to 89). The pair \<^verbatim>\<open>(None, 0)\<close> is
  \<^term>\<open>(PyNone, 0::nat)\<close>.
\<close>

definition find_most_frequent_by_key :: "item list \<Rightarrow> string \<Rightarrow> exn + (pyval \<times> nat)" where
  "find_most_frequent_by_key data_list key =
     (if data_list = [] then Inr (PyNone, 0)
      else
        (case items_of key data_list [] of
           Inl e \<Rightarrow> Inl e
         | Inr items \<Rightarrow>
             if items = [] then Inr (PyNone, 0)
             else
               (case most_common1 (Counter items) of
                  [] \<Rightarrow> Inr (PyNone, 0)
                | most_common # _ \<Rightarrow> Inr most_common)))"

text \<open>
  Two notions for stating the properties: how many records hold the value \<open>w\<close> in the
  field, and the position of the first record that does (the length of the list when
  there is none).
\<close>

definition occurrences :: "dict list \<Rightarrow> string \<Rightarrow> pyval \<Rightarrow> nat" where
  "occurrences rs key w = length (filter (\<lambda>r. map_of r key = Some w) rs)"

definition first_position :: "dict list \<Rightarrow> string \<Rightarrow> pyval \<Rightarrow> nat" where
  "first_position rs key w = length (takeWhile (\<lambda>r. map_of r key \<noteq> Some w) rs)"

text \<open>The values that line 75 collects from a list of records, for use in the proofs.\<close>

definition field_values :: "string \<Rightarrow> dict list \<Rightarrow> pyval list" where
  "field_values key rs = filter (\<lambda>v. v \<noteq> PyNone) (map (\<lambda>r. dict_get r key PyNone) rs)"

section \<open>The generated data and its serialization\<close>

text \<open>The eight records of \<^verbatim>\<open>create_dummy_json\<close> (lines 12 to 21).\<close>

definition data :: "dict list" where
  "data =
    [[(''id'', PyInt 1), (''car'', PyStr ''Toyota Camry''), (''location'', PyStr ''Main St, Anytown''),
      (''city'', PyStr ''Anytown''), (''date_time'', PyStr ''2024-10-25 08:30'')],
     [(''id'', PyInt 2), (''car'', PyStr ''Honda Civic''), (''location'', PyStr ''Highway 101''),
      (''city'', PyStr ''Springfield''), (''date_time'', PyStr ''2024-10-25 15:45'')],
     [(''id'', PyInt 3), (''car'', PyStr ''Ford F-150''), (''location'', PyStr ''Industrial Park Blvd''),
      (''city'', PyStr ''Anytown''), (''date_time'', PyStr ''2024-10-26 10:00'')],
     [(''id'', PyInt 4), (''car'', PyStr ''Toyota Camry''), (''location'', PyStr ''Downtown Loop''),
      (''city'', PyStr ''Metropolis''), (''date_time'', PyStr ''2024-10-26 19:20'')],
     [(''id'', PyInt 5), (''car'', PyStr ''Tesla Model 3''), (''location'', PyStr ''Residential Zone A''),
      (''city'', PyStr ''Springfield''), (''date_time'', PyStr ''2024-10-27 06:15'')],
     [(''id'', PyInt 6), (''car'', PyStr ''Honda Civic''), (''location'', PyStr ''Main St, Anytown''),
      (''city'', PyStr ''Anytown''), (''date_time'', PyStr ''2024-10-27 12:00'')],
     [(''id'', PyInt 7), (''car'', PyStr ''Toyota Camry''), (''location'', PyStr ''Highway 101''),
      (''city'', PyStr ''Springfield''), (''date_time'', PyStr ''2024-10-27 17:50'')],
     [(''id'', PyInt 8), (''car'', PyStr ''Ford F-150''), (''location'', PyStr ''Ocean View Drive''),
      (''city'', PyStr ''Anytown''), (''date_time'', PyStr ''2024-10-28 14:00'')]]"

text \<open>
  \<^verbatim>\<open>json.dump(data, jsonfile, indent=4)\<close> and \<^verbatim>\<open>json.load(jsonfile)\<close> belong to Python's
  library. They are modelled here on the values of this theory: a list of records and
  scalars, or a single one. A string is written between double quotes; the quote and the
  backslash are escaped, the control characters have their short escapes or
  \<^verbatim>\<open>\u00XX\<close>, and every other character outside \<^verbatim>\<open>' '\<close> to \<^verbatim>\<open>'~'\<close> is written
  as \<^verbatim>\<open>\u00XX\<close> (\<^verbatim>\<open>ensure_ascii\<close>).
\<close>

definition escape_char :: "char \<Rightarrow> string" where
  "escape_char c =
     (let n = (of_char c :: nat)
      in if n = 34 then [CHR 0x5C, CHR 0x22]
         else if n = 92 then [CHR 0x5C, CHR 0x5C]
         else if n = 10 then [CHR 0x5C, CHR ''n'']
         else if n = 13 then [CHR 0x5C, CHR ''r'']
         else if n = 9 then [CHR 0x5C, CHR ''t'']
         else if n = 8 then [CHR 0x5C, CHR ''b'']
         else if n = 12 then [CHR 0x5C, CHR ''f'']
         else if 32 \<le> n \<and> n \<le> 126 then [c]
         else [CHR 0x5C, CHR ''u'', CHR ''0'', CHR ''0'',
               ''0123456789abcdef'' ! (n div 16), ''0123456789abcdef'' ! (n mod 16)])"

definition encode_basestring_ascii :: "string \<Rightarrow> string" where
  "encode_basestring_ascii s = CHR 0x22 # concat (map escape_char s) @ [CHR 0x22]"

fun dump_scalar :: "pyval \<Rightarrow> string" where
  "dump_scalar PyNone = ''null''"
| "dump_scalar (PyInt i) = py_str (PyInt i)"
| "dump_scalar (PyStr s) = encode_basestring_ascii s"

text \<open>\<^verbatim>\<open>sep.join(parts)\<close>.\<close>

fun join :: "string \<Rightarrow> string list \<Rightarrow> string" where
  "join sep [] = []"
| "join sep [x] = x"
| "join sep (x # y # ys) = x @ sep @ join sep (y # ys)"

text \<open>With \<^verbatim>\<open>indent=4\<close> every element starts on a line of its own, four spaces deeper at each level.\<close>

definition newline_indent :: "nat \<Rightarrow> string" where
  "newline_indent level = CHR 0x0A # replicate (4 * level) CHR '' ''"

fun dump_item :: "nat \<Rightarrow> item \<Rightarrow> string" where
  "dump_item level (Atom v) = dump_scalar v"
| "dump_item level (Rec []) = ''{}''"
| "dump_item level (Rec (f # fs)) =
     ''{'' @ newline_indent (level + 1)
       @ join ('','' @ newline_indent (level + 1))
           (map (\<lambda>(k, v). encode_basestring_ascii k @ '': '' @ dump_scalar v) (f # fs))
       @ newline_indent level @ ''}''"

fun json_dumps :: "loaded \<Rightarrow> string" where
  "json_dumps (LoadedItem it) = dump_item 0 it"
| "json_dumps (LoadedList []) = ''[]''"
| "json_dumps (LoadedList (x # xs)) =
     ''['' @ newline_indent 1
       @ join ('','' @ newline_indent 1) (map (dump_item 1) (x # xs))
       @ newline_indent 0 @ '']''"

text \<open>
  The reader. It accepts the JSON texts of the values of this theory and returns
  \<^term>\<open>None\<close> for every other text: one that is not JSON, and one whose value is outside
  the model (a boolean, a floating point number, a nested container, a code point from
  256 on).
\<close>

definition is_ws :: "char \<Rightarrow> bool" where
  "is_ws c = (c = CHR '' '' \<or> c = CHR 0x09 \<or> c = CHR 0x0A \<or> c = CHR 0x0D)"

definition skip_ws :: "string \<Rightarrow> string" where
  "skip_ws s = dropWhile is_ws s"

definition is_digit :: "char \<Rightarrow> bool" where
  "is_digit c = (48 \<le> (of_char c :: nat) \<and> (of_char c :: nat) \<le> 57)"

definition hex_val :: "char \<Rightarrow> nat option" where
  "hex_val c =
     (let n = (of_char c :: nat)
      in if 48 \<le> n \<and> n \<le> 57 then Some (n - 48)
         else if 97 \<le> n \<and> n \<le> 102 then Some (n - 87)
         else if 65 \<le> n \<and> n \<le> 70 then Some (n - 55)
         else None)"

definition unescape :: "char \<Rightarrow> char option" where
  "unescape e =
     (if e = CHR 0x22 then Some (CHR 0x22)
      else if e = CHR 0x5C then Some (CHR 0x5C)
      else if e = CHR ''/'' then Some (CHR ''/'')
      else if e = CHR ''b'' then Some (CHR 0x08)
      else if e = CHR ''f'' then Some (CHR 0x0C)
      else if e = CHR ''n'' then Some (CHR 0x0A)
      else if e = CHR ''r'' then Some (CHR 0x0D)
      else if e = CHR ''t'' then Some (CHR 0x09)
      else None)"

definition code_point :: "char \<Rightarrow> char \<Rightarrow> char \<Rightarrow> char \<Rightarrow> char option" where
  "code_point h1 h2 h3 h4 =
     (case (hex_val h1, hex_val h2, hex_val h3, hex_val h4) of
        (Some a, Some b, Some c, Some d) \<Rightarrow>
          if a = 0 \<and> b = 0 then Some (char_of (16 * c + d)) else None
      | _ \<Rightarrow> None)"

text \<open>The characters of a string after its opening quote, up to the closing one.\<close>

fun parse_chars :: "string \<Rightarrow> (string \<times> string) option" where
  "parse_chars [] = None"
| "parse_chars (c # cs) =
     (if c = CHR 0x22 then Some ([], cs)
      else if c = CHR 0x5C then
        (case cs of
           [] \<Rightarrow> None
         | e # rest \<Rightarrow>
             if e = CHR ''u'' then
               (case rest of
                  h1 # h2 # h3 # h4 # rest' \<Rightarrow>
                    (case code_point h1 h2 h3 h4 of
                       None \<Rightarrow> None
                     | Some ch \<Rightarrow> map_option (\<lambda>(t, r). (ch # t, r)) (parse_chars rest'))
                | _ \<Rightarrow> None)
             else
               (case unescape e of
                  None \<Rightarrow> None
                | Some ch \<Rightarrow> map_option (\<lambda>(t, r). (ch # t, r)) (parse_chars rest)))
      else if (of_char c :: nat) < 32 then None
      else map_option (\<lambda>(t, r). (c # t, r)) (parse_chars cs))"

text \<open>
  An integer literal: an optional minus sign, then \<^verbatim>\<open>0\<close> or a digit from 1 to 9 followed
  by digits. A fraction or an exponent after it makes a floating point number.
\<close>

definition digits_value :: "string \<Rightarrow> nat" where
  "digits_value ds = foldl (\<lambda>n d. 10 * n + ((of_char d :: nat) - 48)) 0 ds"

definition parse_digits :: "string \<Rightarrow> (nat \<times> string) option" where
  "parse_digits s =
     (case s of
        [] \<Rightarrow> None
      | d # rest \<Rightarrow>
          if \<not> is_digit d then None
          else if d = CHR ''0'' then Some (0, rest)
          else Some (digits_value (takeWhile is_digit s), dropWhile is_digit s))"

definition parse_number :: "string \<Rightarrow> (pyval \<times> string) option" where
  "parse_number s =
     (let negative = (s \<noteq> [] \<and> hd s = CHR ''-'')
      in case parse_digits (if negative then tl s else s) of
           None \<Rightarrow> None
         | Some (n, rest) \<Rightarrow>
             if rest \<noteq> [] \<and> (hd rest = CHR ''.'' \<or> hd rest = CHR ''e'' \<or> hd rest = CHR ''E'')
             then None
             else Some (PyInt (if negative then - int n else int n), rest))"

definition parse_scalar :: "string \<Rightarrow> (pyval \<times> string) option" where
  "parse_scalar s =
     (if take 4 s = ''null'' then Some (PyNone, drop 4 s)
      else if s \<noteq> [] \<and> hd s = CHR 0x22 then
        map_option (\<lambda>(t, r). (PyStr t, r)) (parse_chars (tl s))
      else parse_number s)"

text \<open>\<^verbatim>\<open>d[key] = value\<close>: a key that is there keeps its place.\<close>

definition dict_set :: "dict \<Rightarrow> string \<Rightarrow> pyval \<Rightarrow> dict" where
  "dict_set d key v =
     (if map_of d key = None then d @ [(key, v)]
      else map (\<lambda>(k, x). if k = key then (k, v) else (k, x)) d)"

text \<open>
  The pairs of an object, from the opening quote of a key on. The first argument bounds
  the number of pairs; the length of the text is always enough.
\<close>

fun parse_pairs :: "nat \<Rightarrow> string \<Rightarrow> dict \<Rightarrow> (dict \<times> string) option" where
  "parse_pairs 0 s acc = None"
| "parse_pairs (Suc n) s acc =
     (if s = [] \<or> hd s \<noteq> CHR 0x22 then None
      else
        (case parse_chars (tl s) of
           None \<Rightarrow> None
         | Some (key, s2) \<Rightarrow>
             let s3 = skip_ws s2
             in if s3 = [] \<or> hd s3 \<noteq> CHR '':'' then None
                else
                  (case parse_scalar (skip_ws (tl s3)) of
                     None \<Rightarrow> None
                   | Some (v, s4) \<Rightarrow>
                       let s5 = skip_ws s4
                       in if s5 = [] then None
                          else if hd s5 = CHR ''}'' then Some (dict_set acc key v, tl s5)
                          else if hd s5 = CHR '','' then
                            parse_pairs n (skip_ws (tl s5)) (dict_set acc key v)
                          else None)))"

definition parse_object :: "string \<Rightarrow> (dict \<times> string) option" where
  "parse_object s =
     (let s1 = skip_ws s
      in if s1 \<noteq> [] \<and> hd s1 = CHR ''}'' then Some ([], tl s1)
         else parse_pairs (length s1) s1 [])"

definition parse_item :: "string \<Rightarrow> (item \<times> string) option" where
  "parse_item s =
     (if s \<noteq> [] \<and> hd s = CHR ''{'' then map_option (\<lambda>(d, r). (Rec d, r)) (parse_object (tl s))
      else map_option (\<lambda>(v, r). (Atom v, r)) (parse_scalar s))"

fun parse_items :: "nat \<Rightarrow> string \<Rightarrow> item list \<Rightarrow> (item list \<times> string) option" where
  "parse_items 0 s acc = None"
| "parse_items (Suc n) s acc =
     (case parse_item s of
        None \<Rightarrow> None
      | Some (it, s1) \<Rightarrow>
          let s2 = skip_ws s1
          in if s2 = [] then None
             else if hd s2 = CHR '']'' then Some (acc @ [it], tl s2)
             else if hd s2 = CHR '','' then parse_items n (skip_ws (tl s2)) (acc @ [it])
             else None)"

definition parse_array :: "string \<Rightarrow> (item list \<times> string) option" where
  "parse_array s =
     (let s1 = skip_ws s
      in if s1 \<noteq> [] \<and> hd s1 = CHR '']'' then Some ([], tl s1)
         else parse_items (length s1) s1 [])"

definition json_loads :: "string \<Rightarrow> loaded option" where
  "json_loads s =
     (let s1 = skip_ws s
      in if s1 \<noteq> [] \<and> hd s1 = CHR ''['' then
           (case parse_array (tl s1) of
              None \<Rightarrow> None
            | Some (items, r) \<Rightarrow> if skip_ws r = [] then Some (LoadedList items) else None)
         else
           (case parse_item s1 of
              None \<Rightarrow> None
            | Some (it, r) \<Rightarrow> if skip_ws r = [] then Some (LoadedItem it) else None))"

section \<open>The files and the main program\<close>

text \<open>
  The file system maps a path to the content of the file there. Writing the file can
  fail (\<^verbatim>\<open>IOError\<close>); what is then at the path, nothing or some content, is part of
  the outcome. Removing the file can fail as well (\<^verbatim>\<open>OSError\<close>, as in a read-only
  directory): then the file stays where it is.
\<close>

type_synonym files = "string \<Rightarrow> string option"

datatype write_outcome = WriteOk | WriteFails "string option"

datatype remove_outcome = RemoveOk | RemoveFails

text \<open>
  A run gives what was printed, the file system afterwards, and the exception that left
  the program uncaught, if any.
\<close>

type_synonym run = "event list \<times> files \<times> exn option"

definition printed :: "run \<Rightarrow> event list" where
  "printed r = fst r"

definition files_after :: "run \<Rightarrow> files" where
  "files_after r = fst (snd r)"


text \<open>\<^verbatim>\<open>create_dummy_json\<close> (lines 7 to 28).\<close>

definition create_dummy_json :: "write_outcome \<Rightarrow> files \<Rightarrow> string \<Rightarrow> event list \<times> files" where
  "create_dummy_json w fs filename =
     (case w of
        WriteOk \<Rightarrow>
          ([CreatedFile filename], fs(filename \<mapsto> json_dumps (LoadedList (map Rec data))))
      | WriteFails left \<Rightarrow> ([CreateError], fs(filename := left)))"

text \<open>
  The loop of lines 118 and 119: \<^verbatim>\<open>result['id']\<close>, \<^verbatim>\<open>result['car']\<close> and
  \<^verbatim>\<open>result['date_time']\<close> raise \<^verbatim>\<open>KeyError\<close> on a record without the key, and
  \<^verbatim>\<open>TypeError\<close> on a scalar.
\<close>

fun print_results :: "item list \<Rightarrow> event list \<Rightarrow> event list \<times> exn option" where
  "print_results [] out = (out, None)"
| "print_results (Atom a # rest) out = (out, Some TypeError)"
| "print_results (Rec result # rest) out =
     (case map_of result ''id'' of
        None \<Rightarrow> (out, Some (KeyError ''id''))
      | Some i \<Rightarrow>
          (case map_of result ''car'' of
             None \<Rightarrow> (out, Some (KeyError ''car''))
           | Some c \<Rightarrow>
               (case map_of result ''date_time'' of
                  None \<Rightarrow> (out, Some (KeyError ''date_time''))
                | Some d \<Rightarrow> print_results rest (out @ [ResultLine i c d]))))"

text \<open>
  Lines 111 to 132, the analysis of a loaded list: what is printed, and the exception
  that ended it, if any.
\<close>

definition analyze :: "item list \<Rightarrow> event list \<times> exn option" where
  "analyze data_list =
     (let out0 = [TotalLoaded (length data_list), Separator];
          search_term = ''Anytown''
      in case search_accidents data_list ''city'' (PyStr search_term) of
           (out1, Inl e) \<Rightarrow> (out0 @ out1, Some e)
         | (out1, Inr search_results) \<Rightarrow>
             (case print_results search_results
                     (out0 @ out1 @ [Analysis1 search_term (length search_results)]) of
                (out2, Some e) \<Rightarrow> (out2, Some e)
              | (out2, None) \<Rightarrow>
                  (case find_most_frequent_by_key data_list ''city'' of
                     Inl e \<Rightarrow> (out2 @ [Separator], Some e)
                   | Inr (most_common_city, city_count) \<Rightarrow>
                       let out3 = out2 @ [Separator, Analysis2,
                                          CityLine most_common_city city_count, Separator]
                       in (case find_most_frequent_by_key data_list ''car'' of
                             Inl e \<Rightarrow> (out3, Some e)
                           | Inr (most_common_car, car_count) \<Rightarrow>
                               (out3 @ [Analysis3, CarLine most_common_car car_count, Separator],
                                None)))))"

text \<open>The three \<^verbatim>\<open>except\<close> clauses (lines 135 to 140).\<close>

fun except_clause :: "string \<Rightarrow> exn \<Rightarrow> event" where
  "except_clause filename FileNotFoundError = FileWasNotFound filename"
| "except_clause filename JSONDecodeError = NotValidJSON filename"
| "except_clause filename e = UnexpectedError e"

text \<open>
  The \<^verbatim>\<open>finally\<close> clause (lines 141 to 145). No handler surrounds \<^verbatim>\<open>os.remove\<close>:
  when it fails, nothing is printed, the file stays, and the \<^verbatim>\<open>OSError\<close> leaves the
  function.
\<close>

definition cleanup :: "remove_outcome \<Rightarrow> files \<Rightarrow> string \<Rightarrow> run" where
  "cleanup rm fs filename =
     (if fs filename \<noteq> None then
        (case rm of
           RemoveOk \<Rightarrow> ([CleanedUp filename], fs(filename := None), None)
         | RemoveFails \<Rightarrow> ([], fs, Some OSError))
      else ([], fs, None))"

text \<open>
  \<^verbatim>\<open>read_and_analyze_json_file\<close> (lines 93 to 145). Opening and parsing the file is the
  library's work: \<open>load\<close> gives, for the content of the file, the loaded value or the
  exception raised.
\<close>

definition read_and_analyze_json_file ::
    "(string \<Rightarrow> exn + loaded) \<Rightarrow> remove_outcome \<Rightarrow> files \<Rightarrow> string \<Rightarrow> run" where
  "read_and_analyze_json_file load rm fs filename =
     (case fs filename of
        None \<Rightarrow> ([ReadingFrom filename, FileNotFoundAt filename], fs, None)
      | Some content \<Rightarrow>
          (let body =
                 (case load content of
                    Inl e \<Rightarrow> [except_clause filename e]
                  | Inr (LoadedItem x) \<Rightarrow> [NotAList]
                  | Inr (LoadedList data_list) \<Rightarrow>
                      (case analyze data_list of
                         (out, None) \<Rightarrow> out
                       | (out, Some e) \<Rightarrow> out @ [except_clause filename e]));
               (final, fs', raised) = cleanup rm fs filename
           in (ReadingFrom filename # body @ final, fs', raised)))"

text \<open>The main program (lines 148 to 155).\<close>

definition main ::
    "write_outcome \<Rightarrow> (string \<Rightarrow> exn + loaded) \<Rightarrow> remove_outcome \<Rightarrow> files \<Rightarrow> run" where
  "main w load rm fs =
     (let json_filename = ''sample_accident_data.json'';
          (out1, fs1) = create_dummy_json w fs json_filename;
          (out2, fs2, raised) = read_and_analyze_json_file load rm fs1 json_filename
      in (out1 @ out2, fs2, raised))"

text \<open>
  Two loaders for stating what the program does on a given file: the one that gives the
  value \<open>v\<close> for every content, and the one that raises the exception \<open>e\<close>.
\<close>

definition load_gives :: "loaded \<Rightarrow> string \<Rightarrow> exn + loaded" where
  "load_gives v content = Inr v"

definition load_raises :: "exn \<Rightarrow> string \<Rightarrow> exn + loaded" where
  "load_raises e content = Inl e"

section \<open>The sentences of the specification as definitions\<close>

text \<open>
  The reading of the specification's sentence on the search: the records whose value for
  the field, as a lower-cased string, contains the lower-cased string form of the query. A
  record without the field has no value for it.
\<close>

definition spec_search :: "dict list \<Rightarrow> string \<Rightarrow> pyval \<Rightarrow> dict list" where
  "spec_search rs key v =
     filter (\<lambda>r. case map_of r key of
                    None \<Rightarrow> False
                  | Some x \<Rightarrow> sublist (lower (py_str v)) (lower (py_str x))) rs"

text \<open>
  The specification's sentence on the shape of the loaded value: it is a sequence of
  records.
\<close>

fun is_rec :: "item \<Rightarrow> bool" where
  "is_rec (Rec r) = True"
| "is_rec (Atom a) = False"

fun is_record_sequence :: "loaded \<Rightarrow> bool" where
  "is_record_sequence (LoadedList xs) = list_all is_rec xs"
| "is_record_sequence (LoadedItem x) = False"

section \<open>Properties of the search\<close>

lemma lower_Nil_iff: "lower s = [] \<longleftrightarrow> s = []"
  by (simp add: lower_def)

lemma py_str_PyStr_Nil: "py_str (PyStr []) = []"
  by simp

lemma search_loop_records:
  "search_loop key needle (map Rec rs) acc =
     Inr (acc @ map Rec
       (filter (\<lambda>r. sublist needle (lower (py_str (dict_get r key (PyStr ''''))))) rs))"
  by (induction rs arbitrary: acc) (simp_all add: Let_def)

lemma search_accidents_records:
  assumes "map_of r key \<noteq> None"
  shows "search_accidents (map Rec (r # rest)) key v =
     ([], Inr (map Rec
        (filter (\<lambda>x. sublist (lower (py_str v)) (lower (py_str (dict_get x key (PyStr '''')))))
           (r # rest))))"
proof -
  have "search_accidents (map Rec (r # rest)) key v =
      ([], search_loop key (lower (py_str v)) (map Rec (r # rest)) [])"
    using assms by (auto simp: search_accidents_def)
  then show ?thesis
    by (simp only: search_loop_records append_Nil)
qed

text \<open>
  Claim C5: when the first record does not contain the field name, and also when the list
  is empty, \<^verbatim>\<open>search_accidents\<close> reports the missing key and returns the empty list,
  whatever the later records hold.
\<close>

theorem search_accidents_key_absent_from_first:
  assumes "rs = [] \<or> (\<exists>r rest. rs = r # rest \<and> map_of r key = None)"
  shows "search_accidents (map Rec rs) key v = ([SearchKeyNotFound key], Inr [])"
  using assms by (auto simp: search_accidents_def)

text \<open>
  Claim C5 on a list whose second record has the field and matches the query.
\<close>

theorem search_accidents_key_absent_from_first_witness:
  "search_accidents (map Rec [[(''id'', PyInt 1)], [(''city'', PyStr ''Anytown'')]])
     ''city'' (PyStr ''Anytown'') = ([SearchKeyNotFound ''city''], Inr [])"
  by (rule search_accidents_key_absent_from_first) simp

text \<open>
  Claim C1 as it is written fails: a record without the field has no value for it, yet
  the search with the empty query returns it, because the loop reads the field with
  \<^verbatim>\<open>record.get(search_key, '')\<close>.
\<close>

theorem search_accidents_spec_search_counterexample:
  "map_of [(''city'', PyStr ''A'')] ''city'' \<noteq> None \<and>
   snd (search_accidents (map Rec [[(''city'', PyStr ''A'')], [(''id'', PyInt 2)]])
          ''city'' (PyStr ''''))
     \<noteq> Inr (map Rec (spec_search [[(''city'', PyStr ''A'')], [(''id'', PyInt 2)]]
                       ''city'' (PyStr '''')))"
  by (simp add: search_accidents_def spec_search_def dict_get_def lower_def)

text \<open>
  Claim C1, amended: when the first record contains the field name,
  \<^verbatim>\<open>search_accidents\<close> prints nothing and returns, in their order, exactly the records
  whose value for the field, taken as the empty string when the record lacks the field,
  contains as a lower-cased string the lower-cased string form of the query.
\<close>

theorem search_accidents_subsequence:
  assumes "map_of r key \<noteq> None"
  shows "search_accidents (map Rec (r # rest)) key v =
     ([], Inr (map Rec
        (filter (\<lambda>x. sublist (lower (py_str v))
                      (lower (py_str (case map_of x key of None \<Rightarrow> PyStr '''' | Some y \<Rightarrow> y))))
           (r # rest))))"
  using search_accidents_records [OF assms, of rest v] by (simp only: dict_get_def)

text \<open>
  Claim C1, amended, on three records and the query \<^verbatim>\<open>ANY\<close>: only the record of
  \<^verbatim>\<open>Anytown\<close> is returned.
\<close>

theorem search_accidents_subsequence_witness:
  "search_accidents
     (map Rec [[(''city'', PyStr ''Anytown'')], [(''city'', PyStr ''Springfield'')], [(''id'', PyInt 3)]])
     ''city'' (PyStr ''ANY'')
   = ([], Inr [Rec [(''city'', PyStr ''Anytown'')]])"
proof -
  have h: "map_of [(''city'', PyStr ''Anytown'')] ''city'' \<noteq> None" by simp
  have e: "filter (\<lambda>x. sublist (lower (py_str (PyStr ''ANY'')))
                      (lower (py_str (case map_of x ''city'' of None \<Rightarrow> PyStr '''' | Some y \<Rightarrow> y))))
        [[(''city'', PyStr ''Anytown'')], [(''city'', PyStr ''Springfield'')], [(''id'', PyInt 3)]]
      = [[(''city'', PyStr ''Anytown'')]]"
    by code_simp
  show ?thesis
    using search_accidents_subsequence [OF h, of "[[(''city'', PyStr ''Springfield'')], [(''id'', PyInt 3)]]" "PyStr ''ANY''"]
    unfolding e by simp
qed

text \<open>
  Claim C10: when the first record contains the field name, a query whose string form is
  empty returns every record; and a later record that lacks the field is among the
  results exactly when the lower-cased string form of the query is empty.
\<close>

theorem search_accidents_empty_query:
  assumes "map_of r key \<noteq> None"
  shows "\<exists>res. search_accidents (map Rec (r # rest)) key v = ([], Inr res)
     \<and> (py_str v = [] \<longrightarrow> res = map Rec (r # rest))
     \<and> (\<forall>x\<in>set rest. map_of x key = None \<longrightarrow> (Rec x \<in> set res \<longleftrightarrow> lower (py_str v) = []))"
proof -
  let ?P = "\<lambda>x. sublist (lower (py_str v)) (lower (py_str (dict_get x key (PyStr ''''))))"
  let ?res = "map Rec (filter ?P (r # rest))"
  have run: "search_accidents (map Rec (r # rest)) key v = ([], Inr ?res)"
    by (rule search_accidents_records [OF assms])
  have all: "?res = map Rec (r # rest)" if "py_str v = []"
  proof -
    have "?P x" for x using that by (simp add: lower_def)
    then have "filter ?P (r # rest) = r # rest" by (simp del: filter.simps)
    then show ?thesis by (simp only:)
  qed
  have lack: "Rec x \<in> set ?res \<longleftrightarrow> lower (py_str v) = []"
    if "x \<in> set rest" and "map_of x key = None" for x
  proof -
    have "?P x \<longleftrightarrow> lower (py_str v) = []"
      using that(2) by (simp add: dict_get_def lower_def)
    moreover have "Rec x \<in> set ?res \<longleftrightarrow> x \<in> set (r # rest) \<and> ?P x"
      by (auto simp del: filter.simps)
    ultimately show ?thesis using that(1) by simp
  qed
  from run all lack show ?thesis by blast
qed

text \<open>
  Claim C10 on two records, the second without the field, and the empty query.
\<close>

theorem search_accidents_empty_query_witness:
  "search_accidents (map Rec [[(''city'', PyStr ''A'')], [(''id'', PyInt 2)]]) ''city'' (PyStr '''')
     = ([], Inr (map Rec [[(''city'', PyStr ''A'')], [(''id'', PyInt 2)]]))
   \<and> (Rec [(''id'', PyInt 2)] \<in> set (map Rec [[(''city'', PyStr ''A'')], [(''id'', PyInt 2)]])
        \<longleftrightarrow> lower (py_str (PyStr '''')) = [])"
proof -
  have h: "map_of [(''city'', PyStr ''A'')] ''city'' \<noteq> None" by simp
  from search_accidents_empty_query [OF h, of "[[(''id'', PyInt 2)]]" "PyStr ''''"]
  obtain res where
    run: "search_accidents (map Rec [[(''city'', PyStr ''A'')], [(''id'', PyInt 2)]]) ''city'' (PyStr '''') = ([], Inr res)"
    and all: "py_str (PyStr '''') = [] \<longrightarrow> res = map Rec [[(''city'', PyStr ''A'')], [(''id'', PyInt 2)]]"
    and lack: "\<forall>x\<in>set [[(''id'', PyInt 2)]]. map_of x ''city'' = None \<longrightarrow>
        (Rec x \<in> set res \<longleftrightarrow> lower (py_str (PyStr '''')) = [])"
    by blast
  from all have res: "res = map Rec [[(''city'', PyStr ''A'')], [(''id'', PyInt 2)]]" by simp
  from lack have "Rec [(''id'', PyInt 2)] \<in> set res \<longleftrightarrow> lower (py_str (PyStr '''')) = []"
    by simp
  with run res show ?thesis by simp
qed

section \<open>Properties of the counting\<close>

lemma keys_count_elem:
  "map fst (count_elem c x) = (if x \<in> fst ` set c then map fst c else map fst c @ [x])"
  by (auto simp: count_elem_def map_of_eq_None_iff split: option.splits
      dest: map_of_SomeD intro: rev_image_eqI)

lemma map_of_increment:
  "map_of (map (\<lambda>(k, n). if k = x then (k, n + 1) else (k, n)) c) y =
     (if y = x then map_option (\<lambda>n. n + 1) (map_of c x) else map_of c y)"
  by (induction c) auto

lemma map_of_count_elem:
  "map_of (count_elem c x) y =
     (if y = x then Some (case map_of c x of None \<Rightarrow> 1 | Some n \<Rightarrow> n + 1) else map_of c y)"
  by (auto simp: count_elem_def map_of_increment map_add_def split: option.splits)

lemma Counter_snoc: "Counter (xs @ [x]) = count_elem (Counter xs) x"
  by (simp add: Counter_def)

lemma map_of_Counter:
  "map_of (Counter xs) y = (if y \<in> set xs then Some (count_list xs y) else None)"
proof (induction xs rule: rev_induct)
  case Nil
  then show ?case by (simp add: Counter_def)
next
  case (snoc x xs)
  then show ?case
    by (auto simp: Counter_snoc map_of_count_elem count_list_0_iff)
qed

lemma keys_Counter: "set (map fst (Counter xs)) = set xs"
proof -
  have "fst ` set (Counter xs) = dom (map_of (Counter xs))"
    by (simp add: dom_map_of_conv_image_fst)
  also have "\<dots> = set xs"
    by (auto simp: map_of_Counter dom_def)
  finally show ?thesis by simp
qed

lemma distinct_keys_Counter: "distinct (map fst (Counter xs))"
proof (induction xs rule: rev_induct)
  case Nil
  then show ?case by (simp add: Counter_def)
next
  case (snoc x xs)
  then show ?case
    using keys_Counter [of xs] by (auto simp: Counter_snoc keys_count_elem)
qed

lemma takeWhile_append_subset: "set (takeWhile P xs) \<subseteq> set (takeWhile P (xs @ ys))"
  by (cases "\<forall>x\<in>set xs. P x") (auto simp: takeWhile_append dest: set_takeWhileD)

lemma order_Counter:
  "set (takeWhile (\<lambda>k. k \<noteq> b) (map fst (Counter xs))) \<subseteq> set (takeWhile (\<lambda>x. x \<noteq> b) xs)"
proof (induction xs rule: rev_induct)
  case Nil
  then show ?case by (simp add: Counter_def)
next
  case (snoc x xs)
  let ?ks = "map fst (Counter xs)"
  have ks: "set ?ks = set xs" by (rule keys_Counter)
  show ?case
  proof (cases "x \<in> set xs")
    case True
    then have "map fst (Counter (xs @ [x])) = ?ks"
      using ks by (simp add: Counter_snoc keys_count_elem)
    then show ?thesis
      using snoc takeWhile_append_subset [of "\<lambda>x. x \<noteq> b" xs "[x]"] by auto
  next
    case False
    then have keys: "map fst (Counter (xs @ [x])) = ?ks @ [x]"
      using ks by (simp add: Counter_snoc keys_count_elem)
    show ?thesis
    proof (cases "b \<in> set xs")
      case True
      then have "takeWhile (\<lambda>k. k \<noteq> b) (?ks @ [x]) = takeWhile (\<lambda>k. k \<noteq> b) ?ks"
        and "takeWhile (\<lambda>k. k \<noteq> b) (xs @ [x]) = takeWhile (\<lambda>k. k \<noteq> b) xs"
        using ks by (auto simp: takeWhile_append)
      then show ?thesis using snoc keys by simp
    next
      case False
      then have "takeWhile (\<lambda>k. k \<noteq> b) (?ks @ [x]) = ?ks @ takeWhile (\<lambda>k. k \<noteq> b) [x]"
        and "takeWhile (\<lambda>k. k \<noteq> b) (xs @ [x]) = xs @ takeWhile (\<lambda>k. k \<noteq> b) [x]"
        using ks by (auto simp: takeWhile_append)
      then show ?thesis using ks keys by simp
    qed
  qed
qed

lemma py_max_by_count_first:
  "\<exists>pre post. best # ps = pre @ py_max_by_count best ps # post
      \<and> (\<forall>q\<in>set pre. snd q < snd (py_max_by_count best ps))
      \<and> (\<forall>q\<in>set post. snd q \<le> snd (py_max_by_count best ps))"
proof (induction ps arbitrary: best)
  case Nil
  show ?case by (intro exI [of _ "[]"]) simp
next
  case (Cons p ps)
  show ?case
  proof (cases "snd best < snd p")
    case True
    then have m: "py_max_by_count best (p # ps) = py_max_by_count p ps" by simp
    from Cons [of p] obtain pre post where
      split: "p # ps = pre @ py_max_by_count p ps # post"
      and pre: "\<forall>q\<in>set pre. snd q < snd (py_max_by_count p ps)"
      and post: "\<forall>q\<in>set post. snd q \<le> snd (py_max_by_count p ps)"
      by blast
    have "snd p \<le> snd (py_max_by_count p ps)"
      using split pre post by (cases pre) auto
    with True have "snd best < snd (py_max_by_count p ps)" by simp
    with pre have pre': "\<forall>q\<in>set (best # pre). snd q < snd (py_max_by_count p ps)" by simp
    have "best # p # ps = (best # pre) @ py_max_by_count p ps # post"
      using split by simp
    with pre' post show ?thesis unfolding m by blast
  next
    case False
    then have m: "py_max_by_count best (p # ps) = py_max_by_count best ps" by simp
    from Cons [of best] obtain pre post where
      split: "best # ps = pre @ py_max_by_count best ps # post"
      and pre: "\<forall>q\<in>set pre. snd q < snd (py_max_by_count best ps)"
      and post: "\<forall>q\<in>set post. snd q \<le> snd (py_max_by_count best ps)"
      by blast
    show ?thesis
    proof (cases pre)
      case Nil
      from split have eq: "best # ps = py_max_by_count best ps # post"
        unfolding Nil append_Nil .
      have b: "py_max_by_count best ps = best"
        using eq by (rule list.inject [THEN iffD1, THEN conjunct1, symmetric])
      have ps: "ps = post"
        using eq by (rule list.inject [THEN iffD1, THEN conjunct2])
      have "best # p # ps = [] @ best # (p # post)" using ps by simp
      moreover have "\<forall>q\<in>set (p # post). snd q \<le> snd best"
        using False post b by auto
      ultimately show ?thesis unfolding m b by (metis empty_iff empty_set)
    next
      case (Cons b pre')
      from split have eq: "best # ps = b # (pre' @ py_max_by_count best ps # post)"
        unfolding Cons append_Cons .
      have b: "b = best"
        using eq by (rule list.inject [THEN iffD1, THEN conjunct1, symmetric])
      have ps: "ps = pre' @ py_max_by_count best ps # post"
        using eq by (rule list.inject [THEN iffD1, THEN conjunct2])
      have lt: "snd best < snd (py_max_by_count best ps)" using pre Cons b by simp
      have "best # p # ps = (best # p # pre') @ py_max_by_count best ps # post"
        using ps by simp
      moreover have "\<forall>q\<in>set (best # p # pre'). snd q < snd (py_max_by_count best ps)"
        using False lt pre Cons by auto
      ultimately show ?thesis unfolding m using post by blast
    qed
  qed
qed

text \<open>The first maximum of a non-empty Counter.\<close>

lemma most_common1_Counter:
  assumes "xs \<noteq> []"
  shows "\<exists>v c. most_common1 (Counter xs) = [(v, c)]
     \<and> v \<in> set xs \<and> c = count_list xs v
     \<and> (\<forall>w. count_list xs w \<le> c)
     \<and> (\<forall>w. w \<noteq> v \<and> count_list xs w = c \<longrightarrow> v \<in> set (takeWhile (\<lambda>x. x \<noteq> w) xs))"
proof -
  from assms keys_Counter [of xs] have "Counter xs \<noteq> []" by auto
  then obtain p ps where C: "Counter xs = p # ps" by (cases "Counter xs") auto
  define m where "m = py_max_by_count p ps"
  from py_max_by_count_first [of p ps] obtain pre post where
    split: "Counter xs = pre @ m # post"
    and pre: "\<forall>q\<in>set pre. snd q < snd m"
    and post: "\<forall>q\<in>set post. snd q \<le> snd m"
    unfolding C m_def by blast
  have mc: "most_common1 (Counter xs) = [(fst m, snd m)]"
    by (simp add: most_common1_def C m_def)
  have entry: "(k, n) \<in> set (Counter xs) \<longleftrightarrow> k \<in> set xs \<and> n = count_list xs k" for k n
    using map_of_eq_Some_iff [OF distinct_keys_Counter, of xs k n]
    by (auto simp: map_of_Counter split: if_splits)
  have "m \<in> set (Counter xs)" using split by simp
  then have m_in: "fst m \<in> set xs" and m_cnt: "snd m = count_list xs (fst m)"
    using entry [of "fst m" "snd m"] by simp_all
  have le: "count_list xs w \<le> snd m" for w
  proof (cases "w \<in> set xs")
    case True
    then have "(w, count_list xs w) \<in> set (Counter xs)" by (simp add: entry)
    with split pre post show ?thesis by (auto simp: less_imp_le dest!: bspec)
  next
    case False
    then show ?thesis by (simp add: count_list_0_iff)
  qed
  have first: "fst m \<in> set (takeWhile (\<lambda>x. x \<noteq> w) xs)"
    if "w \<noteq> fst m" and "count_list xs w = snd m" for w
  proof -
    have "count_list xs (fst m) \<noteq> 0" using m_in by (simp add: count_list_0_iff)
    then have "count_list xs w \<noteq> 0" using that m_cnt by simp
    then have w_in: "w \<in> set xs" by (simp add: count_list_0_iff)
    then have "(w, snd m) \<in> set (Counter xs)" using that by (simp add: entry)
    moreover have "(w, snd m) \<notin> set pre" using pre by auto
    moreover have "(w, snd m) \<noteq> m" using that(1) by (metis fst_conv)
    ultimately have "(w, snd m) \<in> set post" using split by auto
    then have w_post: "w \<in> set (map fst post)" by force
    have keys: "map fst (Counter xs) = map fst pre @ fst m # map fst post"
      using split by simp
    have "distinct (map fst pre @ fst m # map fst post)"
      using distinct_keys_Counter [of xs] unfolding keys .
    with w_post have "w \<notin> set (map fst pre)" by auto
    then have "takeWhile (\<lambda>k. k \<noteq> w) (map fst (Counter xs)) =
        map fst pre @ takeWhile (\<lambda>k. k \<noteq> w) (fst m # map fst post)"
      unfolding keys by (intro takeWhile_append2) auto
    then have "fst m \<in> set (takeWhile (\<lambda>k. k \<noteq> w) (map fst (Counter xs)))"
      using that by simp
    with order_Counter [of w xs] show ?thesis by blast
  qed
  from mc m_in m_cnt le first show ?thesis by blast
qed

section \<open>Properties of the most frequent value\<close>

lemma items_of_records:
  "items_of key (map Rec rs) acc = Inr (acc @ field_values key rs)"
  by (induction rs arbitrary: acc) (simp_all add: field_values_def)

lemma find_most_frequent_none:
  assumes "field_values key rs = []"
  shows "find_most_frequent_by_key (map Rec rs) key = Inr (PyNone, 0)"
  using assms by (simp add: find_most_frequent_by_key_def items_of_records)

lemma find_most_frequent_some:
  assumes "field_values key rs \<noteq> []"
  shows "\<exists>v c. find_most_frequent_by_key (map Rec rs) key = Inr (v, c)
     \<and> v \<in> set (field_values key rs) \<and> c = count_list (field_values key rs) v
     \<and> (\<forall>w. count_list (field_values key rs) w \<le> c)
     \<and> (\<forall>w. w \<noteq> v \<and> count_list (field_values key rs) w = c \<longrightarrow>
           v \<in> set (takeWhile (\<lambda>x. x \<noteq> w) (field_values key rs)))"
proof -
  from most_common1_Counter [OF assms] obtain v c where
    mc: "most_common1 (Counter (field_values key rs)) = [(v, c)]"
    and rest: "v \<in> set (field_values key rs)" "c = count_list (field_values key rs) v"
      "\<forall>w. count_list (field_values key rs) w \<le> c"
      "\<forall>w. w \<noteq> v \<and> count_list (field_values key rs) w = c \<longrightarrow>
           v \<in> set (takeWhile (\<lambda>x. x \<noteq> w) (field_values key rs))"
    by blast
  from assms have "rs \<noteq> []" by (auto simp: field_values_def)
  with assms mc have "find_most_frequent_by_key (map Rec rs) key = Inr (v, c)"
    by (simp add: find_most_frequent_by_key_def items_of_records)
  with rest show ?thesis by blast
qed

lemma count_field_values:
  "w \<noteq> PyNone \<Longrightarrow> count_list (field_values key rs) w = occurrences rs key w"
  by (induction rs) (auto simp: field_values_def occurrences_def dict_get_def split: option.splits)

lemma field_values_Nil_iff:
  "field_values key rs = [] \<longleftrightarrow> (\<forall>r\<in>set rs. map_of r key = None \<or> map_of r key = Some PyNone)"
  by (induction rs) (auto simp: field_values_def dict_get_def split: option.splits)

lemma PyNone_notin_field_values: "PyNone \<notin> set (field_values key rs)"
  by (simp add: field_values_def)

lemma first_position_less:
  assumes "v \<noteq> PyNone" and "w \<noteq> PyNone"
    and "v \<in> set (takeWhile (\<lambda>x. x \<noteq> w) (field_values key rs))"
  shows "first_position rs key v < first_position rs key w"
  using assms
  by (induction rs)
    (auto simp: field_values_def first_position_def dict_get_def split: option.splits if_splits)

lemma field_values_filter_present:
  "field_values key (filter (\<lambda>r. map_of r key \<noteq> None \<and> map_of r key \<noteq> Some PyNone) rs)
     = field_values key rs"
  by (induction rs) (auto simp: field_values_def dict_get_def split: option.splits)

lemma find_most_frequent_records:
  "find_most_frequent_by_key (map Rec rs) key =
     (if field_values key rs = [] then Inr (PyNone, 0)
      else (case most_common1 (Counter (field_values key rs)) of
              [] \<Rightarrow> Inr (PyNone, 0)
            | most_common # _ \<Rightarrow> Inr most_common))"
  by (auto simp: find_most_frequent_by_key_def items_of_records field_values_def)

text \<open>
  Claim C2: on every list of records \<^verbatim>\<open>find_most_frequent_by_key\<close> returns a pair
  \<open>(v, c)\<close>; when \<open>v\<close> is a value, \<open>c\<close> is the number of records that hold \<open>v\<close> in
  the field, and no value of the field occurs in more than \<open>c\<close> records. The absent
  value \<^verbatim>\<open>None\<close> is not counted as a value of the field.
\<close>

theorem find_most_frequent_count_is_maximal:
  "\<exists>v c. find_most_frequent_by_key (map Rec rs) key = Inr (v, c)
     \<and> (v \<noteq> PyNone \<longrightarrow> c = occurrences rs key v)
     \<and> (\<forall>w. w \<noteq> PyNone \<longrightarrow> occurrences rs key w \<le> c)"
proof (cases "field_values key rs = []")
  case True
  have "occurrences rs key w = 0" if "w \<noteq> PyNone" for w
    using count_field_values [OF that, of key rs] True by simp
  with find_most_frequent_none [OF True] show ?thesis by simp
next
  case False
  from find_most_frequent_some [OF False] obtain v c where
    run: "find_most_frequent_by_key (map Rec rs) key = Inr (v, c)"
    and v: "v \<in> set (field_values key rs)"
    and c: "c = count_list (field_values key rs) v"
    and le: "\<forall>w. count_list (field_values key rs) w \<le> c"
    by blast
  from v have "v \<noteq> PyNone" using PyNone_notin_field_values [of key rs] by auto
  with c have "c = occurrences rs key v" by (simp add: count_field_values)
  moreover have "occurrences rs key w \<le> c" if "w \<noteq> PyNone" for w
    using le count_field_values [OF that, of key rs] by metis
  ultimately show ?thesis using run by blast
qed

text \<open>
  Claim C2 on three records: \<^verbatim>\<open>B\<close> with count 2 is returned, and \<^verbatim>\<open>A\<close> occurs no
  more often.
\<close>

theorem find_most_frequent_count_is_maximal_witness:
  "find_most_frequent_by_key
      (map Rec [[(''city'', PyStr ''A'')], [(''city'', PyStr ''B'')], [(''city'', PyStr ''B'')]]) ''city''
     = Inr (PyStr ''B'', 2)
   \<and> occurrences [[(''city'', PyStr ''A'')], [(''city'', PyStr ''B'')], [(''city'', PyStr ''B'')]]
         ''city'' (PyStr ''A'') \<le> 2"
proof -
  let ?rs = "[[(''city'', PyStr ''A'')], [(''city'', PyStr ''B'')], [(''city'', PyStr ''B'')]]"
  have run: "find_most_frequent_by_key (map Rec ?rs) ''city'' = Inr (PyStr ''B'', 2)"
    by code_simp
  from find_most_frequent_count_is_maximal [of ?rs "''city''"] obtain v c where
    "find_most_frequent_by_key (map Rec ?rs) ''city'' = Inr (v, c)"
    and "\<forall>w. w \<noteq> PyNone \<longrightarrow> occurrences ?rs ''city'' w \<le> c"
    by blast
  with run have "occurrences ?rs ''city'' (PyStr ''A'') \<le> 2" by auto
  with run show ?thesis by simp
qed

text \<open>
  Claim C3: when some value of the field is present, \<^verbatim>\<open>find_most_frequent_by_key\<close>
  returns a present value \<open>v\<close> with its count \<open>c\<close>; no value occurs more often, so \<open>v\<close>
  is among the values with the highest count; and whenever another value \<open>w\<close> is tied
  with it, occurring \<open>c\<close> times as well, the first record holding \<open>v\<close> stands before the
  first record holding \<open>w\<close>. Of the values tied for the highest count, the one met first
  is returned.
\<close>

theorem find_most_frequent_tie_first:
  "\<exists>v c. find_most_frequent_by_key (map Rec rs) key = Inr (v, c)
     \<and> (\<forall>w. w \<noteq> PyNone \<longrightarrow> occurrences rs key w \<le> c)
     \<and> ((\<exists>w. w \<noteq> PyNone \<and> 0 < occurrences rs key w) \<longrightarrow>
          v \<noteq> PyNone \<and> occurrences rs key v = c
          \<and> (\<forall>w. w \<noteq> PyNone \<and> w \<noteq> v \<and> occurrences rs key w = c \<longrightarrow>
                first_position rs key v < first_position rs key w))"
proof (cases "field_values key rs = []")
  case True
  have none: "occurrences rs key w = 0" if "w \<noteq> PyNone" for w
    using count_field_values [OF that, of key rs] True by simp
  then have "\<not> (\<exists>w. w \<noteq> PyNone \<and> 0 < occurrences rs key w)" by (metis less_irrefl)
  with find_most_frequent_none [OF True] none show ?thesis by simp
next
  case False
  from find_most_frequent_some [OF False] obtain v c where
    run: "find_most_frequent_by_key (map Rec rs) key = Inr (v, c)"
    and v: "v \<in> set (field_values key rs)"
    and c: "c = count_list (field_values key rs) v"
    and le: "\<forall>w. count_list (field_values key rs) w \<le> c"
    and first: "\<forall>w. w \<noteq> v \<and> count_list (field_values key rs) w = c \<longrightarrow>
           v \<in> set (takeWhile (\<lambda>x. x \<noteq> w) (field_values key rs))"
    by blast
  from v have v_present: "v \<noteq> PyNone" using PyNone_notin_field_values [of key rs] by auto
  with c have v_count: "occurrences rs key v = c" by (simp add: count_field_values)
  have highest: "occurrences rs key w \<le> c" if "w \<noteq> PyNone" for w
    using le count_field_values [OF that, of key rs] by metis
  have earliest: "first_position rs key v < first_position rs key w"
    if "w \<noteq> PyNone" and "w \<noteq> v" and "occurrences rs key w = c" for w
  proof -
    from that have "count_list (field_values key rs) w = c" by (simp add: count_field_values)
    with first that(2) have "v \<in> set (takeWhile (\<lambda>x. x \<noteq> w) (field_values key rs))" by blast
    with v_present that(1) show ?thesis by (rule first_position_less)
  qed
  from run v_present v_count highest earliest show ?thesis by blast
qed

text \<open>
  Claim C3 on five records with the cities \<^verbatim>\<open>C, A, B, B, A\<close>: \<^verbatim>\<open>A\<close> and \<^verbatim>\<open>B\<close>
  both occur twice, \<^verbatim>\<open>C\<close> comes first but occurs once, and \<^verbatim>\<open>A\<close> is returned, whose
  first record stands before the first record of \<^verbatim>\<open>B\<close>.
\<close>

theorem find_most_frequent_tie_first_witness:
  "find_most_frequent_by_key
      (map Rec [[(''city'', PyStr ''C'')], [(''city'', PyStr ''A'')], [(''city'', PyStr ''B'')],
                [(''city'', PyStr ''B'')], [(''city'', PyStr ''A'')]]) ''city''
     = Inr (PyStr ''A'', 2)
   \<and> occurrences [[(''city'', PyStr ''C'')], [(''city'', PyStr ''A'')], [(''city'', PyStr ''B'')],
                   [(''city'', PyStr ''B'')], [(''city'', PyStr ''A'')]] ''city'' (PyStr ''B'') = 2
   \<and> first_position [[(''city'', PyStr ''C'')], [(''city'', PyStr ''A'')], [(''city'', PyStr ''B'')],
                      [(''city'', PyStr ''B'')], [(''city'', PyStr ''A'')]] ''city'' (PyStr ''A'')
     < first_position [[(''city'', PyStr ''C'')], [(''city'', PyStr ''A'')], [(''city'', PyStr ''B'')],
                      [(''city'', PyStr ''B'')], [(''city'', PyStr ''A'')]] ''city'' (PyStr ''B'')"
proof -
  let ?rs = "[[(''city'', PyStr ''C'')], [(''city'', PyStr ''A'')], [(''city'', PyStr ''B'')],
              [(''city'', PyStr ''B'')], [(''city'', PyStr ''A'')]]"
  have run: "find_most_frequent_by_key (map Rec ?rs) ''city'' = Inr (PyStr ''A'', 2)"
    by code_simp
  have tie: "occurrences ?rs ''city'' (PyStr ''B'') = 2"
    by (simp add: occurrences_def)
  have some: "\<exists>w. w \<noteq> PyNone \<and> 0 < occurrences ?rs ''city'' w"
    using tie by (intro exI [of _ "PyStr ''B''"]) simp
  from find_most_frequent_tie_first [of ?rs "''city''"] obtain v c where
    r: "find_most_frequent_by_key (map Rec ?rs) ''city'' = Inr (v, c)"
    and t: "(\<exists>w. w \<noteq> PyNone \<and> 0 < occurrences ?rs ''city'' w) \<longrightarrow>
          v \<noteq> PyNone \<and> occurrences ?rs ''city'' v = c
          \<and> (\<forall>w. w \<noteq> PyNone \<and> w \<noteq> v \<and> occurrences ?rs ''city'' w = c \<longrightarrow>
                first_position ?rs ''city'' v < first_position ?rs ''city'' w)"
    by blast
  from r run have vc: "v = PyStr ''A''" "c = 2" by simp_all
  from t some have "\<forall>w. w \<noteq> PyNone \<and> w \<noteq> v \<and> occurrences ?rs ''city'' w = c \<longrightarrow>
                first_position ?rs ''city'' v < first_position ?rs ''city'' w"
    by blast
  with vc tie have
    "first_position ?rs ''city'' (PyStr ''A'') < first_position ?rs ''city'' (PyStr ''B'')"
    by auto
  with run tie show ?thesis by simp
qed

text \<open>
  Claim C4: \<^verbatim>\<open>find_most_frequent_by_key\<close> returns \<^verbatim>\<open>(None, 0)\<close> exactly when every
  record lacks the field or holds \<^verbatim>\<open>None\<close> in it, which includes the empty list; and
  the records without a present value do not take part in the counting, since removing
  them leaves the result as it is.
\<close>

theorem find_most_frequent_no_data:
  "(find_most_frequent_by_key (map Rec rs) key = Inr (PyNone, 0)
      \<longleftrightarrow> (\<forall>r\<in>set rs. map_of r key = None \<or> map_of r key = Some PyNone))
   \<and> find_most_frequent_by_key (map Rec rs) key =
       find_most_frequent_by_key
         (map Rec (filter (\<lambda>r. map_of r key \<noteq> None \<and> map_of r key \<noteq> Some PyNone) rs)) key"
proof
  show "find_most_frequent_by_key (map Rec rs) key = Inr (PyNone, 0)
      \<longleftrightarrow> (\<forall>r\<in>set rs. map_of r key = None \<or> map_of r key = Some PyNone)"
  proof (cases "field_values key rs = []")
    case True
    with find_most_frequent_none [OF True] show ?thesis
      by (simp add: field_values_Nil_iff)
  next
    case False
    from find_most_frequent_some [OF False] obtain v c where
      "find_most_frequent_by_key (map Rec rs) key = Inr (v, c)"
      and "v \<in> set (field_values key rs)"
      by blast
    moreover from this have "v \<noteq> PyNone" using PyNone_notin_field_values [of key rs] by auto
    ultimately show ?thesis using False by (simp add: field_values_Nil_iff)
  qed
next
  show "find_most_frequent_by_key (map Rec rs) key =
       find_most_frequent_by_key
         (map Rec (filter (\<lambda>r. map_of r key \<noteq> None \<and> map_of r key \<noteq> Some PyNone) rs)) key"
    by (simp only: find_most_frequent_records field_values_filter_present)
qed

text \<open>
  Claim C4 on two records, one holding \<^verbatim>\<open>None\<close> in the field and one without it.
\<close>

theorem find_most_frequent_no_data_witness:
  "find_most_frequent_by_key (map Rec [[(''city'', PyNone)], [(''id'', PyInt 1)]]) ''city''
     = Inr (PyNone, 0)"
proof -
  have "\<forall>r\<in>set [[(''city'', PyNone)], [(''id'', PyInt 1)]].
          map_of r ''city'' = None \<or> map_of r ''city'' = Some PyNone"
    by simp
  with find_most_frequent_no_data [of "[[(''city'', PyNone)], [(''id'', PyInt 1)]]" "''city''"]
  show ?thesis by blast
qed

section \<open>The fixed data\<close>

text \<open>
  Claim C7: on the eight generated records, the search over \<^verbatim>\<open>city\<close> with a query
  that is \<^verbatim>\<open>anytown\<close> in any letter case returns exactly the records with the ids 1, 3,
  6 and 8, in their order; the most frequent \<^verbatim>\<open>city\<close> is \<^verbatim>\<open>Anytown\<close> with count
  4 and the most frequent \<^verbatim>\<open>car\<close> is \<^verbatim>\<open>Toyota Camry\<close> with count 3.
\<close>

theorem fixed_dataset_scenario:
  assumes "lower q = ''anytown''"
  shows "search_accidents (map Rec data) ''city'' (PyStr q) =
       ([], Inr (map Rec (filter (\<lambda>r. map_of r ''id'' \<in>
            {Some (PyInt 1), Some (PyInt 3), Some (PyInt 6), Some (PyInt 8)}) data)))
     \<and> find_most_frequent_by_key (map Rec data) ''city'' = Inr (PyStr ''Anytown'', 4)
     \<and> find_most_frequent_by_key (map Rec data) ''car'' = Inr (PyStr ''Toyota Camry'', 3)"
proof (intro conjI)
  have d: "data = hd data # tl data" by (simp add: data_def)
  have k: "map_of (hd data) ''city'' \<noteq> None" by (simp add: data_def)
  have e: "filter (\<lambda>x. sublist ''anytown'' (lower (py_str (dict_get x ''city'' (PyStr ''''))))) data
      = filter (\<lambda>r. map_of r ''id'' \<in>
            {Some (PyInt 1), Some (PyInt 3), Some (PyInt 6), Some (PyInt 8)}) data"
    by code_simp
  have "search_accidents (map Rec (hd data # tl data)) ''city'' (PyStr q) =
      ([], Inr (map Rec (filter
         (\<lambda>x. sublist (lower (py_str (PyStr q))) (lower (py_str (dict_get x ''city'' (PyStr '''')))))
         (hd data # tl data))))"
    by (rule search_accidents_records [OF k])
  then show "search_accidents (map Rec data) ''city'' (PyStr q) =
       ([], Inr (map Rec (filter (\<lambda>r. map_of r ''id'' \<in>
            {Some (PyInt 1), Some (PyInt 3), Some (PyInt 6), Some (PyInt 8)}) data)))"
    unfolding d [symmetric] py_str.simps assms e .
next
  show "find_most_frequent_by_key (map Rec data) ''city'' = Inr (PyStr ''Anytown'', 4)"
    by code_simp
next
  show "find_most_frequent_by_key (map Rec data) ''car'' = Inr (PyStr ''Toyota Camry'', 3)"
    by code_simp
qed

text \<open>Claim C7 with the query written \<^verbatim>\<open>AnyTOWN\<close>.\<close>

theorem fixed_dataset_scenario_witness:
  "search_accidents (map Rec data) ''city'' (PyStr ''AnyTOWN'') =
       ([], Inr (map Rec (filter (\<lambda>r. map_of r ''id'' \<in>
            {Some (PyInt 1), Some (PyInt 3), Some (PyInt 6), Some (PyInt 8)}) data)))
     \<and> find_most_frequent_by_key (map Rec data) ''city'' = Inr (PyStr ''Anytown'', 4)
     \<and> find_most_frequent_by_key (map Rec data) ''car'' = Inr (PyStr ''Toyota Camry'', 3)"
proof -
  have h: "lower ''AnyTOWN'' = ''anytown''" by code_simp
  show ?thesis by (rule fixed_dataset_scenario [OF h])
qed

text \<open>The records with these ids are the first, third, sixth and eighth.\<close>

lemma fixed_dataset_matches:
  "filter (\<lambda>r. map_of r ''id'' \<in> {Some (PyInt 1), Some (PyInt 3), Some (PyInt 6), Some (PyInt 8)}) data
     = [data ! 0, data ! 2, data ! 5, data ! 7]"
  by code_simp

section \<open>The generated file\<close>

text \<open>
  The serialization and the reader on small texts: the layout that \<^verbatim>\<open>indent=4\<close> gives,
  a repeated key, whose last value is kept, and three texts that the reader does not
  accept.
\<close>

lemma json_dumps_example:
  "json_dumps (LoadedList [Rec [(''id'', PyInt 1), (''car'', PyStr ''Toyota Camry'')], Rec []]) =
     ''[\<newline>    {\<newline>        \"id\": 1,\<newline>        \"car\": \"Toyota Camry\"\<newline>    },\<newline>    {}\<newline>]''"
  by code_simp

lemma json_loads_example:
  "json_loads ''[{\"a\": -12, \"b\": \"xy\", \"a\": null}, 7]'' =
     Some (LoadedList [Rec [(''a'', PyNone), (''b'', PyStr ''xy'')], Atom (PyInt 7)])"
  by code_simp

lemma json_loads_outside:
  "json_loads ''[1.5]'' = None" "json_loads ''[1,]'' = None" "json_loads ''[[1]]'' = None"
  by code_simp+

lemma loads_dumps_data:
  "json_loads (json_dumps (LoadedList (map Rec data))) = Some (LoadedList (map Rec data))"
  by code_simp

text \<open>
  Claim C6: the file that the Generator writes holds the serialization of the eight
  records, and reading this text back gives the list of the same eight records, equal
  field by field and in the same order.
\<close>

theorem generated_file_round_trip:
  "snd (create_dummy_json WriteOk fs filename) filename
      = Some (json_dumps (LoadedList (map Rec data)))
   \<and> json_loads (json_dumps (LoadedList (map Rec data))) = Some (LoadedList (map Rec data))"
  by (simp add: create_dummy_json_def loads_dumps_data)

section \<open>Properties of the main program\<close>

text \<open>
  Claim C8 as it is written fails: the list \<^verbatim>\<open>[1]\<close> is no sequence of records, but
  line 107 only asks whether the loaded value is a list. The analysis starts, and
  \<^verbatim>\<open>search_accidents\<close> raises \<^verbatim>\<open>TypeError\<close>, which is reported as an unexpected error;
  no shape failure is reported.
\<close>

theorem shape_check_counterexample:
  "\<not> is_record_sequence (LoadedList [Atom (PyInt 1)])
   \<and> json_loads ''[1]'' = Some (LoadedList [Atom (PyInt 1)])
   \<and> read_and_analyze_json_file (load_gives (LoadedList [Atom (PyInt 1)])) RemoveOk
        [''f.json'' \<mapsto> ''[1]''] ''f.json''
      = ([ReadingFrom ''f.json'', TotalLoaded 1, Separator, UnexpectedError TypeError,
          CleanedUp ''f.json''], Map.empty, None)"
proof (intro conjI)
  show "\<not> is_record_sequence (LoadedList [Atom (PyInt 1)])" by simp
  show "json_loads ''[1]'' = Some (LoadedList [Atom (PyInt 1)])" by code_simp
  show "read_and_analyze_json_file (load_gives (LoadedList [Atom (PyInt 1)])) RemoveOk
        [''f.json'' \<mapsto> ''[1]''] ''f.json''
      = ([ReadingFrom ''f.json'', TotalLoaded 1, Separator, UnexpectedError TypeError,
          CleanedUp ''f.json''], Map.empty, None)"
    by (simp add: read_and_analyze_json_file_def load_gives_def analyze_def search_accidents_def
        cleanup_def)
qed

text \<open>
  Claim C8, amended: when the content of the file parses to a value that is not a list (a
  single object or a scalar), the program reports that and nothing else from the analysis:
  no search and no frequency query runs. The cleanup follows: the file is removed, and
  that is printed, when \<^verbatim>\<open>os.remove\<close> succeeds; when it fails, the file stays and the
  \<^verbatim>\<open>OSError\<close> leaves the function.
\<close>

theorem not_a_list_is_reported:
  assumes "fs filename = Some content" and "load content = Inr (LoadedItem x)"
  shows "read_and_analyze_json_file load RemoveOk fs filename =
       ([ReadingFrom filename, NotAList, CleanedUp filename], fs(filename := None), None)
     \<and> read_and_analyze_json_file load RemoveFails fs filename =
       ([ReadingFrom filename, NotAList], fs, Some OSError)"
  using assms by (simp add: read_and_analyze_json_file_def cleanup_def)

text \<open>Claim C8, amended, on a file that holds one object.\<close>

theorem not_a_list_is_reported_witness:
  "read_and_analyze_json_file (load_gives (LoadedItem (Rec [(''id'', PyInt 1)]))) RemoveOk
       [''f.json'' \<mapsto> ''{\"id\": 1}''] ''f.json''
     = ([ReadingFrom ''f.json'', NotAList, CleanedUp ''f.json''],
        [''f.json'' \<mapsto> ''{\"id\": 1}''](''f.json'' := None), None)
   \<and> read_and_analyze_json_file (load_gives (LoadedItem (Rec [(''id'', PyInt 1)]))) RemoveFails
       [''f.json'' \<mapsto> ''{\"id\": 1}''] ''f.json''
     = ([ReadingFrom ''f.json'', NotAList], [''f.json'' \<mapsto> ''{\"id\": 1}''], Some OSError)"
  by (rule not_a_list_is_reported [where content = "''{\"id\": 1}''"])
    (simp_all add: load_gives_def)

text \<open>
  After the analysis of a file, the file is there exactly when it was there before and
  could not be removed.
\<close>

lemma read_and_analyze_file_after:
  "files_after (read_and_analyze_json_file load rm fs filename) filename =
     (if rm = RemoveFails then fs filename else None)"
  by (cases rm)
    (simp_all add: files_after_def read_and_analyze_json_file_def cleanup_def
      split: option.splits prod.splits)

lemma main_file_after:
  "files_after (main w load rm fs) ''sample_accident_data.json'' =
     (if rm = RemoveFails
      then (case w of WriteOk \<Rightarrow> Some (json_dumps (LoadedList (map Rec data)))
                    | WriteFails left \<Rightarrow> left)
      else None)"
proof -
  obtain out1 fs1 where c: "create_dummy_json w fs ''sample_accident_data.json'' = (out1, fs1)"
    by (cases "create_dummy_json w fs ''sample_accident_data.json''")
  obtain out2 fs2 raised where
    r: "read_and_analyze_json_file load rm fs1 ''sample_accident_data.json'' = (out2, fs2, raised)"
    by (cases "read_and_analyze_json_file load rm fs1 ''sample_accident_data.json''")
  have "fs2 ''sample_accident_data.json'' =
      (if rm = RemoveFails then fs1 ''sample_accident_data.json'' else None)"
    using read_and_analyze_file_after [of load rm fs1 "''sample_accident_data.json''"] r
    by (simp add: files_after_def)
  moreover have "fs1 ''sample_accident_data.json'' =
      (case w of WriteOk \<Rightarrow> Some (json_dumps (LoadedList (map Rec data)))
               | WriteFails left \<Rightarrow> left)"
    using c by (auto simp: create_dummy_json_def split: write_outcome.splits)
  ultimately show ?thesis by (simp add: main_def files_after_def c r)
qed



text \<open>
  The paths of a run in which the file can be removed: a successful analysis, no file
  after a failed write, a file that does not parse, a value that is no list, and a record
  without \<^verbatim>\<open>id\<close> at line 119.
\<close>

lemma run_success:
  "printed (main WriteOk (load_gives (LoadedList (map Rec data))) RemoveOk fs) =
     [CreatedFile ''sample_accident_data.json'', ReadingFrom ''sample_accident_data.json'',
      TotalLoaded 8, Separator, Analysis1 ''Anytown'' 4,
      ResultLine (PyInt 1) (PyStr ''Toyota Camry'') (PyStr ''2024-10-25 08:30''),
      ResultLine (PyInt 3) (PyStr ''Ford F-150'') (PyStr ''2024-10-26 10:00''),
      ResultLine (PyInt 6) (PyStr ''Honda Civic'') (PyStr ''2024-10-27 12:00''),
      ResultLine (PyInt 8) (PyStr ''Ford F-150'') (PyStr ''2024-10-28 14:00''),
      Separator, Analysis2, CityLine (PyStr ''Anytown'') 4, Separator,
      Analysis3, CarLine (PyStr ''Toyota Camry'') 3, Separator,
      CleanedUp ''sample_accident_data.json'']"
proof -
  have a: "analyze (map Rec data) =
     ([TotalLoaded 8, Separator, Analysis1 ''Anytown'' 4,
      ResultLine (PyInt 1) (PyStr ''Toyota Camry'') (PyStr ''2024-10-25 08:30''),
      ResultLine (PyInt 3) (PyStr ''Ford F-150'') (PyStr ''2024-10-26 10:00''),
      ResultLine (PyInt 6) (PyStr ''Honda Civic'') (PyStr ''2024-10-27 12:00''),
      ResultLine (PyInt 8) (PyStr ''Ford F-150'') (PyStr ''2024-10-28 14:00''),
      Separator, Analysis2, CityLine (PyStr ''Anytown'') 4, Separator,
      Analysis3, CarLine (PyStr ''Toyota Camry'') 3, Separator], None)"
    by code_simp
  show ?thesis
    by (simp add: printed_def main_def Let_def create_dummy_json_def
        read_and_analyze_json_file_def load_gives_def cleanup_def a)
qed

lemma run_missing_file:
  "main (WriteFails None) load rm Map.empty =
     ([CreateError, ReadingFrom ''sample_accident_data.json'',
       FileNotFoundAt ''sample_accident_data.json''], Map.empty, None)"
  by (simp add: main_def Let_def create_dummy_json_def read_and_analyze_json_file_def)

lemma run_parse_failure:
  "printed (main (WriteFails (Some ''[{'')) (load_raises JSONDecodeError) RemoveOk fs) =
     [CreateError, ReadingFrom ''sample_accident_data.json'',
      NotValidJSON ''sample_accident_data.json'', CleanedUp ''sample_accident_data.json'']"
  by (simp add: printed_def main_def Let_def create_dummy_json_def
      read_and_analyze_json_file_def load_raises_def cleanup_def)

lemma run_unexpected_error:
  "printed (main WriteOk (load_gives (LoadedList [Rec [(''city'', PyStr ''Anytown'')]]))
      RemoveOk fs) =
     [CreatedFile ''sample_accident_data.json'', ReadingFrom ''sample_accident_data.json'',
      TotalLoaded 1, Separator, Analysis1 ''Anytown'' 1, UnexpectedError (KeyError ''id''),
      CleanedUp ''sample_accident_data.json'']"
proof -
  have a: "analyze [Rec [(''city'', PyStr ''Anytown'')]] =
      ([TotalLoaded 1, Separator, Analysis1 ''Anytown'' 1], Some (KeyError ''id''))"
    by code_simp
  show ?thesis
    by (simp add: printed_def main_def Let_def create_dummy_json_def
        read_and_analyze_json_file_def load_gives_def cleanup_def a)
qed

lemma run_shape_failure:
  "printed (main WriteOk (load_gives (LoadedItem (Atom (PyInt 5)))) RemoveOk fs) =
     [CreatedFile ''sample_accident_data.json'', ReadingFrom ''sample_accident_data.json'',
      NotAList, CleanedUp ''sample_accident_data.json'']"
  by (simp add: printed_def main_def Let_def create_dummy_json_def
      read_and_analyze_json_file_def load_gives_def cleanup_def)

end
